theory Spec2Isabelle
  imports Main
begin

section \<open>Board (game package: board.go part of game.go)\<close>

text \<open>
  The Go board is \<^verbatim>\<open>cells [Rows][Columns]int\<close>: six rows of seven machine integers,
  row 0 at the top and row 5 at the bottom. It is modelled as a list of rows; the fixed
  array shape is recorded by \<open>wf_board\<close>. Cell values are only copied and compared,
  never computed with, so an unbounded \<open>int\<close> stands for Go's \<open>int\<close>.
  The mutexes of the source are not modelled: every operation is one atomic step.
\<close>

abbreviation (input) Rows :: nat where "Rows \<equiv> 6"
abbreviation (input) Columns :: nat where "Columns \<equiv> 7"

abbreviation (input) Empty :: int where "Empty \<equiv> 0"
abbreviation (input) Player1 :: int where "Player1 \<equiv> 1"
abbreviation (input) Player2 :: int where "Player2 \<equiv> 2"

type_synonym board = "int list list"

definition wf_board :: "board \<Rightarrow> bool" where
  "wf_board b \<longleftrightarrow> length b = Rows \<and> (\<forall>r \<in> set b. length r = Columns)"

text \<open>Errors of both source files: the board's \<^verbatim>\<open>errors.New\<close> values and the game's
  \<^verbatim>\<open>GameError\<close> values.\<close>

datatype error =
    ErrInvalidColumn
  | ErrInvalidPlayer
  | ErrColumnFull
  | ErrGameNotInProgress
  | ErrNotYourTurn

definition NewBoard :: board where
  "NewBoard = replicate Rows (replicate Columns Empty)"

definition cell :: "board \<Rightarrow> nat \<Rightarrow> nat \<Rightarrow> int" where
  "cell b row col = b ! row ! col"

definition set_cell :: "board \<Rightarrow> nat \<Rightarrow> nat \<Rightarrow> int \<Rightarrow> board" where
  "set_cell b row col v = b[row := (b ! row)[col := v]]"

definition Clone :: "board \<Rightarrow> board" where
  "Clone b = map (\<lambda>i. map (\<lambda>j. cell b i j) [0..<Columns]) [0..<Rows]"

text \<open>\<^verbatim>\<open>for row := Rows - 1; row >= 0; row--\<close>: the first Empty cell met going up from the
  bottom row.\<close>

definition lowest_empty :: "board \<Rightarrow> nat \<Rightarrow> nat option" where
  "lowest_empty b col = List.find (\<lambda>row. cell b row col = Empty) (rev [0..<Rows])"

text \<open>\<^verbatim>\<open>for row := 0; row < Rows; row++\<close>: the first non-Empty cell met going down from the
  top row.\<close>

definition top_disc :: "board \<Rightarrow> nat \<Rightarrow> nat option" where
  "top_disc b col = List.find (\<lambda>row. cell b row col \<noteq> Empty) [0..<Rows]"

text \<open>The board is mutated in place in Go; here each operation returns the new board with
  its result. On an error the source returns row -1 with the error, which is \<open>Inl\<close>.\<close>

definition DropDisc :: "int \<Rightarrow> int \<Rightarrow> board \<Rightarrow> board \<times> (error + int)" where
  "DropDisc column player b =
     (if column < 0 \<or> column \<ge> int Columns then (b, Inl ErrInvalidColumn)
      else if player \<noteq> Player1 \<and> player \<noteq> Player2 then (b, Inl ErrInvalidPlayer)
      else case lowest_empty b (nat column) of
             Some row \<Rightarrow> (set_cell b row (nat column) player, Inr (int row))
           | None \<Rightarrow> (b, Inl ErrColumnFull))"

definition DropDiscUnsafe :: "int \<Rightarrow> int \<Rightarrow> board \<Rightarrow> board \<times> (error + int)" where
  "DropDiscUnsafe column player b =
     (if column < 0 \<or> column \<ge> int Columns then (b, Inl ErrInvalidColumn)
      else case lowest_empty b (nat column) of
             Some row \<Rightarrow> (set_cell b row (nat column) player, Inr (int row))
           | None \<Rightarrow> (b, Inl ErrColumnFull))"

text \<open>\<^verbatim>\<open>UndoMove\<close> has no range check: indexing the array with a column outside 0..6 is a
  run-time panic in Go, which is \<open>None\<close> here.\<close>

definition UndoMove :: "int \<Rightarrow> board \<Rightarrow> board option" where
  "UndoMove column b =
     (if column < 0 \<or> column \<ge> int Columns then None
      else case top_disc b (nat column) of
             Some row \<Rightarrow> Some (set_cell b row (nat column) Empty)
           | None \<Rightarrow> Some b)"

definition checkWinUnsafe :: "board \<Rightarrow> int \<Rightarrow> bool" where
  "checkWinUnsafe b player \<longleftrightarrow>
     (\<exists>row \<in> set [0..<Rows]. \<exists>col \<in> set [0..<Columns - 3].
        cell b row col = player \<and> cell b row (col + 1) = player \<and>
        cell b row (col + 2) = player \<and> cell b row (col + 3) = player) \<or>
     (\<exists>row \<in> set [0..<Rows - 3]. \<exists>col \<in> set [0..<Columns].
        cell b row col = player \<and> cell b (row + 1) col = player \<and>
        cell b (row + 2) col = player \<and> cell b (row + 3) col = player) \<or>
     (\<exists>row \<in> set [0..<Rows - 3]. \<exists>col \<in> set [0..<Columns - 3].
        cell b row col = player \<and> cell b (row + 1) (col + 1) = player \<and>
        cell b (row + 2) (col + 2) = player \<and> cell b (row + 3) (col + 3) = player) \<or>
     (\<exists>row \<in> set [3..<Rows]. \<exists>col \<in> set [0..<Columns - 3].
        cell b row col = player \<and> cell b (row - 1) (col + 1) = player \<and>
        cell b (row - 2) (col + 2) = player \<and> cell b (row - 3) (col + 3) = player)"

definition CheckWin :: "board \<Rightarrow> int \<Rightarrow> bool" where
  "CheckWin b player = checkWinUnsafe b player"

definition isFullUnsafe :: "board \<Rightarrow> bool" where
  "isFullUnsafe b \<longleftrightarrow> (\<forall>col \<in> set [0..<Columns]. cell b 0 col \<noteq> Empty)"

definition IsFull :: "board \<Rightarrow> bool" where
  "IsFull b = isFullUnsafe b"

definition getValidColumnsUnsafe :: "board \<Rightarrow> int list" where
  "getValidColumnsUnsafe b =
     map int (filter (\<lambda>col. cell b 0 col = Empty) [0..<Columns])"

definition GetValidColumns :: "board \<Rightarrow> int list" where
  "GetValidColumns b = getValidColumnsUnsafe b"

text \<open>The gravity invariant of the data model: in every column, each cell below an
  occupied cell (a larger row index) is occupied.\<close>

definition gravity :: "board \<Rightarrow> bool" where
  "gravity b \<longleftrightarrow>
     (\<forall>col \<in> set [0..<Columns]. \<forall>row \<in> set [0..<Rows]. \<forall>row' \<in> set [0..<Rows].
        row < row' \<and> cell b row col \<noteq> Empty \<longrightarrow> cell b row' col \<noteq> Empty)"

text \<open>The boards the program can build: the cells are private to the package, so a board
  is the empty one changed by the three mutating operations (with any arguments, whether
  the call succeeds or not).\<close>

inductive board_reachable :: "board \<Rightarrow> bool" where
  br_new: "board_reachable NewBoard"
| br_drop: "board_reachable b \<Longrightarrow> board_reachable (fst (DropDisc column player b))"
| br_drop_unsafe: "board_reachable b \<Longrightarrow> board_reachable (fst (DropDiscUnsafe column player b))"
| br_undo: "board_reachable b \<Longrightarrow> UndoMove column b = Some b' \<Longrightarrow> board_reachable b'"


section \<open>Match (game.go)\<close>

datatype GameStatus = StatusWaiting | StatusPlaying | StatusFinished | StatusDisconnect

text \<open>\<^verbatim>\<open>GameResult\<close> is a string type in Go; its zero value (no result yet) is \<open>None\<close> in
  the \<open>Result\<close> field below.\<close>

datatype GameResult = ResultWinPlayer1 | ResultWinPlayer2 | ResultDraw | ResultForfeit

text \<open>A \<^verbatim>\<open>time.Time\<close> is a number of nanoseconds counted from the zero \<^verbatim>\<open>time.Time{}\<close>,
  which is 0. \<^verbatim>\<open>time.Now()\<close> is an argument of each operation that reads the clock.
  \<^verbatim>\<open>Time.Sub\<close> saturates at the bounds of the 64-bit \<^verbatim>\<open>Duration\<close>.\<close>

type_synonym time = int

abbreviation (input) Second :: int where "Second \<equiv> 1000000000"

definition maxDuration :: int where "maxDuration = 2 ^ 63 - 1"
definition minDuration :: int where "minDuration = - (2 ^ 63)"

definition time_Sub :: "time \<Rightarrow> time \<Rightarrow> int" where
  "time_Sub t u =
     (let d = t - u in
      if d > maxDuration then maxDuration else if d < minDuration then minDuration else d)"

definition time_Since :: "time \<Rightarrow> time \<Rightarrow> int" where
  "time_Since now t = time_Sub now t"

record Player =
  Username :: string
  PlayerNum :: int
  IsBot :: bool
  IsConnected :: bool

record Move =
  MovePlayerNum :: int
  Column :: int
  Row :: int
  Timestamp :: time

text \<open>The search depth only counts down from \<open>maxDepth - 1\<close> to 0, where the recursion
  stops, so it is a natural number here.\<close>

record Bot =
  player :: int
  opponent :: int
  maxDepth :: nat

definition NewBot :: "int \<Rightarrow> Bot" where
  "NewBot p =
     \<lparr>player = p, opponent = (if p = Player1 then Player2 else Player1), maxDepth = 5\<rparr>"

text \<open>The pointer fields \<^verbatim>\<open>Player1\<close>, \<^verbatim>\<open>Player2\<close>, \<^verbatim>\<open>Winner\<close> and \<^verbatim>\<open>Bot\<close> are options
  (\<open>None\<close> is the nil pointer). \<^verbatim>\<open>Winner\<close> is assigned one of the two player pointers; it is
  modelled by the player it then points to. The board pointer is allocated once by
  \<^verbatim>\<open>NewGame\<close> and never reassigned, so the field holds the board itself. The two player
  fields are named \<open>GamePlayer1\<close> and \<open>GamePlayer2\<close> to keep them apart from the side
  constants.\<close>

record Game =
  ID :: string
  GamePlayer1 :: "Player option"
  GamePlayer2 :: "Player option"
  Board :: board
  CurrentTurn :: int
  Status :: GameStatus
  Winner :: "Player option"
  Result :: "GameResult option"
  Moves :: "Move list"
  StartTime :: time
  EndTime :: time
  DisconnectTime :: time
  DisconnectedPlayer :: int
  GameBot :: "Bot option"

text \<open>The identifier drawn by \<^verbatim>\<open>uuid.New()\<close> is the argument \<open>gid\<close>.\<close>

definition NewGame :: "string \<Rightarrow> time \<Rightarrow> string \<Rightarrow> Game" where
  "NewGame gid now player1Username =
     \<lparr>ID = gid,
      GamePlayer1 = Some \<lparr>Username = player1Username, PlayerNum = Player1,
                           IsBot = False, IsConnected = True\<rparr>,
      GamePlayer2 = None,
      Board = NewBoard,
      CurrentTurn = Player1,
      Status = StatusWaiting,
      Winner = None,
      Result = None,
      Moves = [],
      StartTime = now,
      EndTime = 0,
      DisconnectTime = 0,
      DisconnectedPlayer = 0,
      GameBot = None\<rparr>"

definition AddPlayer2 :: "string \<Rightarrow> bool \<Rightarrow> Game \<Rightarrow> Game" where
  "AddPlayer2 username isBot g =
     (let g1 = g\<lparr>GamePlayer2 := Some \<lparr>Username = username, PlayerNum = Player2,
                                         IsBot = isBot, IsConnected = True\<rparr>,
                  Status := StatusPlaying\<rparr>
      in if isBot then g1\<lparr>GameBot := Some (NewBot Player2)\<rparr> else g1)"

text \<open>\<^verbatim>\<open>MakeMove\<close> reads the clock for the move's timestamp (\<open>now\<close>) and again for the end
  time (\<open>fin\<close>).\<close>

definition MakeMove :: "time \<Rightarrow> time \<Rightarrow> int \<Rightarrow> int \<Rightarrow> Game \<Rightarrow> Game \<times> (error + int)" where
  "MakeMove now fin playerNum column g =
     (if Status g \<noteq> StatusPlaying then (g, Inl ErrGameNotInProgress)
      else if CurrentTurn g \<noteq> playerNum then (g, Inl ErrNotYourTurn)
      else case DropDisc column playerNum (Board g) of
        (b, Inl err) \<Rightarrow> (g\<lparr>Board := b\<rparr>, Inl err)
      | (b, Inr row) \<Rightarrow>
          (let g1 = g\<lparr>Board := b,
                       Moves := Moves g @ [\<lparr>MovePlayerNum = playerNum, Column = column,
                                            Row = row, Timestamp = now\<rparr>]\<rparr>
           in if CheckWin (Board g1) playerNum then
                (if playerNum = Player1
                 then (g1\<lparr>Status := StatusFinished, EndTime := fin,
                           Winner := GamePlayer1 g1, Result := Some ResultWinPlayer1\<rparr>, Inr row)
                 else (g1\<lparr>Status := StatusFinished, EndTime := fin,
                           Winner := GamePlayer2 g1, Result := Some ResultWinPlayer2\<rparr>, Inr row))
              else if IsFull (Board g1) then
                (g1\<lparr>Status := StatusFinished, EndTime := fin, Result := Some ResultDraw\<rparr>, Inr row)
              else if CurrentTurn g1 = Player1 then (g1\<lparr>CurrentTurn := Player2\<rparr>, Inr row)
              else (g1\<lparr>CurrentTurn := Player1\<rparr>, Inr row)))"

text \<open>Writing \<^verbatim>\<open>IsConnected\<close> through a nil player pointer is a run-time panic: the result
  \<open>None\<close> of the next two operations.\<close>

definition set_connected :: "int \<Rightarrow> bool \<Rightarrow> Game \<Rightarrow> Game option" where
  "set_connected playerNum v g =
     (if playerNum = Player1
      then (case GamePlayer1 g of
              None \<Rightarrow> None
            | Some p \<Rightarrow> Some (g\<lparr>GamePlayer1 := Some (p\<lparr>IsConnected := v\<rparr>)\<rparr>))
      else (case GamePlayer2 g of
              None \<Rightarrow> None
            | Some p \<Rightarrow> Some (g\<lparr>GamePlayer2 := Some (p\<lparr>IsConnected := v\<rparr>)\<rparr>)))"

definition PlayerDisconnected :: "time \<Rightarrow> int \<Rightarrow> Game \<Rightarrow> Game option" where
  "PlayerDisconnected now playerNum g =
     (if Status g \<noteq> StatusPlaying then Some g
      else set_connected playerNum False
             (g\<lparr>DisconnectedPlayer := playerNum, DisconnectTime := now,
                 Status := StatusDisconnect\<rparr>))"

definition PlayerReconnected :: "time \<Rightarrow> int \<Rightarrow> Game \<Rightarrow> (Game \<times> bool) option" where
  "PlayerReconnected now playerNum g =
     (if Status g \<noteq> StatusDisconnect \<or> DisconnectedPlayer g \<noteq> playerNum then Some (g, False)
      else if time_Since now (DisconnectTime g) > 30 * Second then Some (g, False)
      else case set_connected playerNum True
                  (g\<lparr>Status := StatusPlaying, DisconnectedPlayer := 0, DisconnectTime := 0\<rparr>) of
             None \<Rightarrow> None
           | Some g' \<Rightarrow> Some (g', True))"

definition Forfeit :: "time \<Rightarrow> int \<Rightarrow> Game \<Rightarrow> Game" where
  "Forfeit now loserPlayerNum g =
     (let g1 = g\<lparr>Status := StatusFinished, EndTime := now, Result := Some ResultForfeit\<rparr>
      in if loserPlayerNum = Player1 then g1\<lparr>Winner := GamePlayer2 g1\<rparr>
         else g1\<lparr>Winner := GamePlayer1 g1\<rparr>)"

text \<open>The matches the program builds: the matchmaker creates a match with \<^verbatim>\<open>NewGame\<close> and
  adds the second player at once; from then on only the four operations below change it.\<close>

inductive match_reachable :: "Game \<Rightarrow> bool" where
  mr_new: "match_reachable (NewGame gid now name1)"
| mr_add: "match_reachable (AddPlayer2 name2 isBot (NewGame gid now name1))"
| mr_move: "match_reachable g \<Longrightarrow> match_reachable (fst (MakeMove now fin playerNum column g))"
| mr_disconnect: "match_reachable g \<Longrightarrow> PlayerDisconnected now playerNum g = Some g' \<Longrightarrow>
                  match_reachable g'"
| mr_reconnect: "match_reachable g \<Longrightarrow> PlayerReconnected now playerNum g = Some (g', ok) \<Longrightarrow>
                 match_reachable g'"
| mr_forfeit: "match_reachable g \<Longrightarrow> match_reachable (Forfeit now loserPlayerNum g)"


section \<open>Search engine (bot.go)\<close>

text \<open>The receiver \<^verbatim>\<open>bot\<close> of the source is written \<open>bt\<close>. Scores are far from the bounds
  of Go's \<open>int\<close>, so they are unbounded integers here.\<close>

abbreviation (input) MinInt32 :: int where "MinInt32 \<equiv> - 2147483648"
abbreviation (input) MaxInt32 :: int where "MaxInt32 \<equiv> 2147483647"

definition scoreWindow :: "Bot \<Rightarrow> int list \<Rightarrow> int" where
  "scoreWindow bt window =
     (let botCount = length (filter (\<lambda>c. c = player bt) window);
          oppCount = length (filter (\<lambda>c. c \<noteq> player bt \<and> c = opponent bt) window);
          emptyCount = length (filter (\<lambda>c. c \<noteq> player bt \<and> c \<noteq> opponent bt \<and> c = Empty) window)
      in if botCount = 4 then 100
         else if botCount = 3 \<and> emptyCount = 1 then 5
         else if botCount = 2 \<and> emptyCount = 2 then 2
         else if oppCount = 3 \<and> emptyCount = 1 then - 4
         else 0)"

definition scoreAllWindows :: "Bot \<Rightarrow> board \<Rightarrow> int" where
  "scoreAllWindows bt b =
     (\<Sum>row\<leftarrow>[0..<Rows]. \<Sum>col\<leftarrow>[0..<Columns - 3].
        scoreWindow bt [cell b row col, cell b row (col + 1),
                         cell b row (col + 2), cell b row (col + 3)]) +
     (\<Sum>row\<leftarrow>[0..<Rows - 3]. \<Sum>col\<leftarrow>[0..<Columns].
        scoreWindow bt [cell b row col, cell b (row + 1) col,
                         cell b (row + 2) col, cell b (row + 3) col]) +
     (\<Sum>row\<leftarrow>[0..<Rows - 3]. \<Sum>col\<leftarrow>[0..<Columns - 3].
        scoreWindow bt [cell b row col, cell b (row + 1) (col + 1),
                         cell b (row + 2) (col + 2), cell b (row + 3) (col + 3)]) +
     (\<Sum>row\<leftarrow>[3..<Rows]. \<Sum>col\<leftarrow>[0..<Columns - 3].
        scoreWindow bt [cell b row col, cell b (row - 1) (col + 1),
                         cell b (row - 2) (col + 2), cell b (row - 3) (col + 3)])"

definition evaluateBoard :: "Bot \<Rightarrow> board \<Rightarrow> int" where
  "evaluateBoard bt b =
     (let centerCol = Columns div 2;
          centerCount = length (filter (\<lambda>row. cell b row centerCol = player bt) [0..<Rows])
      in int centerCount * 3 + scoreAllWindows bt b)"

function minimax :: "Bot \<Rightarrow> board \<Rightarrow> nat \<Rightarrow> int \<Rightarrow> int \<Rightarrow> bool \<Rightarrow> (int \<times> board) option"
  and max_loop :: "Bot \<Rightarrow> int list \<Rightarrow> board \<Rightarrow> nat \<Rightarrow> int \<Rightarrow> int \<Rightarrow> int \<Rightarrow> (int \<times> board) option"
  and min_loop :: "Bot \<Rightarrow> int list \<Rightarrow> board \<Rightarrow> nat \<Rightarrow> int \<Rightarrow> int \<Rightarrow> int \<Rightarrow> (int \<times> board) option"
where
  "minimax bt b depth alpha beta isMaximizing =
     (if checkWinUnsafe b (player bt) then Some (10000 + int depth, b)
      else if checkWinUnsafe b (opponent bt) then Some (- 10000 - int depth, b)
      else if isFullUnsafe b \<or> depth = 0 then Some (evaluateBoard bt b, b)
      else if getValidColumnsUnsafe b = [] then Some (0, b)
      else if isMaximizing
           then max_loop bt (getValidColumnsUnsafe b) b (depth - 1) alpha beta MinInt32
           else min_loop bt (getValidColumnsUnsafe b) b (depth - 1) alpha beta MaxInt32)"
| "max_loop bt [] b d alpha beta maxScore = Some (maxScore, b)"
| "max_loop bt (col # cols) b d alpha beta maxScore =
     (case minimax bt (fst (DropDiscUnsafe col (player bt) b)) d alpha beta False of
        None \<Rightarrow> None
      | Some (score, b1) \<Rightarrow>
          (case UndoMove col b1 of
             None \<Rightarrow> None
           | Some b2 \<Rightarrow>
               if beta \<le> max alpha score then Some (max maxScore score, b2)
               else max_loop bt cols b2 d (max alpha score) beta (max maxScore score)))"
| "min_loop bt [] b d alpha beta minScore = Some (minScore, b)"
| "min_loop bt (col # cols) b d alpha beta minScore =
     (case minimax bt (fst (DropDiscUnsafe col (opponent bt) b)) d alpha beta True of
        None \<Rightarrow> None
      | Some (score, b1) \<Rightarrow>
          (case UndoMove col b1 of
             None \<Rightarrow> None
           | Some b2 \<Rightarrow>
               if min beta score \<le> alpha then Some (min minScore score, b2)
               else min_loop bt cols b2 d alpha (min beta score) (min minScore score)))"
  by pat_completeness auto
termination
  by (relation "measures [
        (\<lambda>x. case x of
           Inl (bt, b, depth, r) \<Rightarrow> 2 * depth + 1
         | Inr (Inl (bt, cols, b, d, r)) \<Rightarrow> 2 * d + 2
         | Inr (Inr (bt, cols, b, d, r)) \<Rightarrow> 2 * d + 2),
        (\<lambda>x. case x of
           Inl _ \<Rightarrow> 0
         | Inr (Inl (bt, cols, r)) \<Rightarrow> length cols
         | Inr (Inr (bt, cols, r)) \<Rightarrow> length cols)]") auto

text \<open>The first two loops of \<^verbatim>\<open>GetBestMove\<close> are the same loop, once for the bot's side and
  once for the opponent's: drop a disc of \<open>side\<close> into each valid column in turn, test for a
  win of \<open>side\<close>, undo. The result is the column found, if any, and the board as the loop
  leaves it; \<open>None\<close> is a panic of \<^verbatim>\<open>UndoMove\<close>.\<close>

fun win_scan :: "int \<Rightarrow> int list \<Rightarrow> board \<Rightarrow> (int option \<times> board) option" where
  "win_scan side [] b = Some (None, b)"
| "win_scan side (col # cols) b =
     (let b1 = fst (DropDiscUnsafe col side b)
      in if checkWinUnsafe b1 side
         then (case UndoMove col b1 of None \<Rightarrow> None | Some b2 \<Rightarrow> Some (Some col, b2))
         else (case UndoMove col b1 of None \<Rightarrow> None | Some b2 \<Rightarrow> win_scan side cols b2))"

definition columnOrder :: "int list" where
  "columnOrder = [3, 2, 4, 1, 5, 0, 6]"

text \<open>The third loop: the minimax score of each ordered column, keeping the first column
  with the strictly greatest score.\<close>

fun best_loop :: "Bot \<Rightarrow> int list \<Rightarrow> board \<Rightarrow> int \<Rightarrow> int \<Rightarrow> (int \<times> board) option" where
  "best_loop bt [] b bestScore bestCol = Some (bestCol, b)"
| "best_loop bt (col # cols) b bestScore bestCol =
     (case minimax bt (fst (DropDiscUnsafe col (player bt) b)) (maxDepth bt - 1)
             MinInt32 MaxInt32 False of
        None \<Rightarrow> None
      | Some (score, b1) \<Rightarrow>
          (case UndoMove col b1 of
             None \<Rightarrow> None
           | Some b2 \<Rightarrow>
               if score > bestScore then best_loop bt cols b2 score col
               else best_loop bt cols b2 bestScore bestCol))"

text \<open>\<^verbatim>\<open>bestCol := validCols[0]\<close> indexes a slice: with no valid column it is a run-time
  panic, the result \<open>None\<close>.\<close>

definition GetBestMove :: "Bot \<Rightarrow> board \<Rightarrow> int option" where
  "GetBestMove bt board =
     (let b = Clone board;
          validCols = getValidColumnsUnsafe b
      in case win_scan (player bt) validCols b of
           None \<Rightarrow> None
         | Some (Some col, b1) \<Rightarrow> Some col
         | Some (None, b1) \<Rightarrow>
             (case win_scan (opponent bt) validCols b1 of
                None \<Rightarrow> None
              | Some (Some col, b2) \<Rightarrow> Some col
              | Some (None, b2) \<Rightarrow>
                  (case validCols of
                     [] \<Rightarrow> None
                   | c0 # rest \<Rightarrow>
                       (let orderedCols = filter (\<lambda>col. col \<in> set validCols) columnOrder
                        in case best_loop bt orderedCols b2 MinInt32 c0 of
                             None \<Rightarrow> None
                           | Some (bestCol, b3) \<Rightarrow> Some bestCol))))"

section \<open>Matchmaker (matchmaker package)\<close>

text \<open>A \<^verbatim>\<open>chan *game.Game\<close> of capacity 1 is a cell of a channel store, named by its index:
  an open channel with its buffer, or a closed one. The games of the registry are pointers
  in Go; the map holds the match as it stands. The goroutines started by \<^verbatim>\<open>JoinQueue\<close>
  (the start callback and the matchmaking timeout) are not part of the model.\<close>

datatype chan = Chan "Game list" | ClosedChan

datatype send_failure = SendBlocks | SendOnClosedChannel

record WaitingPlayer =
  WaitingUsername :: string
  JoinedAt :: time
  MatchChan :: nat

record Matchmaker =
  waitingQueue :: "WaitingPlayer list"
  activeGames :: "string \<rightharpoonup> Game"
  playerGames :: "string \<rightharpoonup> string"

definition NewMatchmaker :: Matchmaker where
  "NewMatchmaker = \<lparr>waitingQueue = [], activeGames = Map.empty, playerGames = Map.empty\<rparr>"

text \<open>\<^verbatim>\<open>ch <- g\<close>: a send on a full channel never returns (the channel has no reader inside
  the call), a send on a closed channel panics.\<close>

definition chan_send :: "chan list \<Rightarrow> nat \<Rightarrow> Game \<Rightarrow> send_failure + chan list" where
  "chan_send cs ch g =
     (if ch < length cs
      then (case cs ! ch of
              Chan buf \<Rightarrow> if length buf < 1 then Inr (cs[ch := Chan (buf @ [g])])
                          else Inl SendBlocks
            | ClosedChan \<Rightarrow> Inl SendOnClosedChannel)
      else Inl SendBlocks)"

text \<open>\<^verbatim>\<open>JoinQueue\<close> returns the channel on which the caller receives its match: the store
  after the call and the index of that channel. The error it returns is always nil.\<close>

definition JoinQueue ::
  "string \<Rightarrow> time \<Rightarrow> string \<Rightarrow> Matchmaker \<times> chan list
     \<Rightarrow> send_failure + (Matchmaker \<times> chan list \<times> nat)" where
  "JoinQueue gid now username st =
     (let m = fst st; cs = snd st
      in case (case playerGames m username of
                 None \<Rightarrow> None
               | Some gameID \<Rightarrow> activeGames m gameID) of
           Some g \<Rightarrow> Inr (m, cs @ [Chan [g]], length cs)
         | None \<Rightarrow>
             (case waitingQueue m of
                opp # rest \<Rightarrow>
                  (let g = AddPlayer2 username False (NewGame gid now (WaitingUsername opp));
                       m' = m\<lparr>waitingQueue := rest,
                               activeGames := (activeGames m)(ID g \<mapsto> g),
                               playerGames := (playerGames m)(WaitingUsername opp \<mapsto> ID g,
                                                               username \<mapsto> ID g)\<rparr>
                   in case chan_send cs (MatchChan opp) g of
                        Inl f \<Rightarrow> Inl f
                      | Inr cs' \<Rightarrow> Inr (m', cs' @ [Chan [g]], length cs'))
              | [] \<Rightarrow>
                  Inr (m\<lparr>waitingQueue := waitingQueue m @
                           [\<lparr>WaitingUsername = username, JoinedAt = now,
                             MatchChan = length cs\<rparr>]\<rparr>,
                       cs @ [Chan []], length cs)))"


section \<open>Invariant of a match and example matches\<close>

text \<open>What holds of every match the program builds: the first player is present, each
  player carries its side, and a match that is being played (or waits for a reconnection)
  has both players and neither winner nor result.\<close>

definition match_inv :: "Game \<Rightarrow> bool" where
  "match_inv g \<longleftrightarrow>
     (\<exists>p. GamePlayer1 g = Some p \<and> PlayerNum p = Player1) \<and>
     (\<forall>p. GamePlayer2 g = Some p \<longrightarrow> PlayerNum p = Player2) \<and>
     (Status g = StatusPlaying \<or> Status g = StatusDisconnect \<longrightarrow>
        GamePlayer2 g \<noteq> None \<and> Winner g = None \<and> Result g = None)"

text \<open>Matches used to instantiate the theorems below: a fresh two-player match, a match
  one move before a win of side 1, a match one move before a draw, and a match whose
  first player is disconnected. \<open>replay\<close> plays a list of (side, column) moves.\<close>

fun replay :: "Game \<Rightarrow> (int \<times> int) list \<Rightarrow> Game" where
  "replay g [] = g"
| "replay g ((side, column) # ms) = replay (fst (MakeMove 0 0 side column g)) ms"

definition example_match :: Game where
  "example_match = AddPlayer2 ''bob'' False (NewGame ''g1'' 0 ''alice'')"

definition example_before_win :: Game where
  "example_before_win = replay example_match [(1, 0), (2, 6), (1, 1), (2, 6), (1, 2), (2, 6)]"

definition example_won :: Game where
  "example_won = fst (MakeMove 0 0 Player1 3 example_before_win)"

definition example_before_draw :: Game where
  "example_before_draw = replay example_match
     [(1, 0), (2, 2), (1, 2), (2, 0), (1, 0), (2, 2), (1, 2), (2, 0), (1, 0), (2, 2), (1, 2), (2, 0),
      (1, 1), (2, 3), (1, 3), (2, 1), (1, 1), (2, 3), (1, 3), (2, 1), (1, 1), (2, 3), (1, 3), (2, 1),
      (1, 4), (2, 6), (1, 6), (2, 4), (1, 4), (2, 6), (1, 6), (2, 4), (1, 4), (2, 6), (1, 6), (2, 4),
      (1, 5), (2, 5), (1, 5), (2, 5), (1, 5)]"

definition example_drawn :: Game where
  "example_drawn = fst (MakeMove 0 0 Player2 5 example_before_draw)"

definition example_disconnected :: Game where
  "example_disconnected = the (PlayerDisconnected 5 Player1 example_match)"

section \<open>Notions of the claims about the search engine, example boards and registry\<close>


text \<open>Column lists all of whose entries index the array.\<close>

definition in_range :: "int list \<Rightarrow> bool" where
  "in_range cols \<longleftrightarrow> (\<forall>c \<in> set cols. 0 \<le> c \<and> c < int Columns)"




text \<open>A registry in which alice and bob were paired in match \<open>g1\<close>, alice has won it, and
  the match is still registered (\<^verbatim>\<open>RemoveGame\<close> runs five seconds after the end).\<close>

definition example_matchmaker :: Matchmaker where
  "example_matchmaker =
     \<lparr>waitingQueue = [],
      activeGames = [''g1'' \<mapsto> example_won],
      playerGames = [''alice'' \<mapsto> ''g1'', ''bob'' \<mapsto> ''g1'']\<rparr>"

definition example_chans :: "chan list" where
  "example_chans = [Chan [], Chan []]"

section \<open>Properties of the board\<close>

subsection \<open>Cells and the two column scans\<close>

lemma find_upt_Some:
  "List.find P [0..<n] = Some x \<longleftrightarrow> x < n \<and> P x \<and> (\<forall>y<x. \<not> P y)"
  by (auto simp: find_Some_iff)

lemma find_upt_None: "List.find P [0..<n] = None \<longleftrightarrow> (\<forall>y<n. \<not> P y)"
  by (auto simp: find_None_iff)

lemma find_rev_upt_Some:
  "List.find P (rev [0..<n]) = Some x \<longleftrightarrow> x < n \<and> P x \<and> (\<forall>y. x < y \<and> y < n \<longrightarrow> \<not> P y)"
proof (induction n arbitrary: x)
  case 0
  then show ?case by simp
next
  case (Suc n)
  show ?case
  proof (cases "P n")
    case True
    then show ?thesis by (auto simp: less_Suc_eq) 
  next
    case False
    then show ?thesis using Suc.IH[of x] by (auto simp: less_Suc_eq)
  qed
qed


lemma cell_set_cell:
  "wf_board b \<Longrightarrow> row < Rows \<Longrightarrow> col < Columns \<Longrightarrow>
   cell (set_cell b row col v) r c = (if r = row \<and> c = col then v else cell b r c)"
  by (auto simp: wf_board_def cell_def set_cell_def nth_list_update)

lemma wf_set_cell: "wf_board b \<Longrightarrow> wf_board (set_cell b row col v)"
proof (cases "row < length b")
  case True
  assume "wf_board b"
  then show ?thesis using True
    unfolding wf_board_def set_cell_def
    by (auto dest!: set_update_subset_insert[THEN subsetD])
next
  case False
  assume "wf_board b"
  then show ?thesis using False by (simp add: set_cell_def list_update_beyond)
qed

lemma board_ext:
  assumes "wf_board b" "wf_board b'"
    and "\<And>r c. r < Rows \<Longrightarrow> c < Columns \<Longrightarrow> cell b r c = cell b' r c"
  shows "b = b'"
proof (rule nth_equalityI)
  show "length b = length b'" using assms by (simp add: wf_board_def)
next
  fix i assume i: "i < length b"
  then have i6: "i < Rows" using assms(1) by (simp add: wf_board_def)
  have l1: "length (b ! i) = Columns" using assms(1) i by (simp add: wf_board_def)
  have l2: "length (b' ! i) = Columns" using assms(1,2) i by (simp add: wf_board_def)
  show "b ! i = b' ! i"
  proof (rule nth_equalityI)
    show "length (b ! i) = length (b' ! i)" using l1 l2 by simp
  next
    fix j assume "j < length (b ! i)"
    then have "j < Columns" using l1 by simp
    then show "b ! i ! j = b' ! i ! j" using assms(3)[OF i6] by (simp add: cell_def)
  qed
qed


lemma wf_NewBoard: "wf_board NewBoard"
  by (simp add: wf_board_def NewBoard_def)

lemma cell_NewBoard: "row < Rows \<Longrightarrow> col < Columns \<Longrightarrow> cell NewBoard row col = Empty"
  by (simp add: cell_def NewBoard_def)

lemma lowest_empty_Some:
  "lowest_empty b col = Some row \<longleftrightarrow>
     row < Rows \<and> cell b row col = Empty \<and> (\<forall>y. row < y \<and> y < Rows \<longrightarrow> cell b y col \<noteq> Empty)"
  unfolding lowest_empty_def by (rule find_rev_upt_Some)


lemma top_disc_Some:
  "top_disc b col = Some row \<longleftrightarrow>
     row < Rows \<and> cell b row col \<noteq> Empty \<and> (\<forall>y<row. cell b y col = Empty)"
  unfolding top_disc_def by (simp add: find_upt_Some)

lemma top_disc_None:
  "top_disc b col = None \<longleftrightarrow> (\<forall>y<Rows. cell b y col = Empty)"
  unfolding top_disc_def by (simp add: find_upt_None)

lemma gravity_iff:
  "gravity b \<longleftrightarrow>
     (\<forall>col<Columns. \<forall>row row'. row < row' \<and> row' < Rows \<and> cell b row col \<noteq> Empty
        \<longrightarrow> cell b row' col \<noteq> Empty)"
proof -
  have "gravity b \<longleftrightarrow>
     (\<forall>col. col < Columns \<longrightarrow> (\<forall>row. row < Rows \<longrightarrow> (\<forall>row'. row' < Rows \<longrightarrow>
        row < row' \<and> cell b row col \<noteq> Empty \<longrightarrow> cell b row' col \<noteq> Empty)))"
    unfolding gravity_def by (simp only: set_upt Ball_def atLeastLessThan_iff le0 simp_thms)
  also have "\<dots> \<longleftrightarrow> (\<forall>col<Columns. \<forall>row row'. row < row' \<and> row' < Rows \<and> cell b row col \<noteq> Empty
        \<longrightarrow> cell b row' col \<noteq> Empty)"
    by (meson less_trans)
  finally show ?thesis .
qed

lemma set_cell_restore:
  assumes "wf_board b" "row < Rows" "col < Columns" "cell b row col = v"
  shows "set_cell (set_cell b row col w) row col v = b"
proof (rule board_ext)
  show "wf_board (set_cell (set_cell b row col w) row col v)"
    using assms(1) by (simp add: wf_set_cell)
  show "wf_board b" by fact
  fix r c
  show "cell (set_cell (set_cell b row col w) row col v) r c = cell b r c"
    using assms by (simp add: cell_set_cell wf_set_cell)
qed

lemma drop_result:
  "DropDiscUnsafe column p b = (b', Inr r) \<longleftrightarrow>
     0 \<le> column \<and> column < int Columns \<and>
     (\<exists>row. lowest_empty b (nat column) = Some row \<and> r = int row \<and>
            b' = set_cell b row (nat column) p)"
  by (auto simp: DropDiscUnsafe_def split: option.splits)

lemma DropDisc_eq_unsafe:
  "p = Player1 \<or> p = Player2 \<Longrightarrow> DropDisc column p b = DropDiscUnsafe column p b"
  by (auto simp: DropDisc_def DropDiscUnsafe_def)

lemma DropDisc_success_player:
  "DropDisc column p b = (b', Inr r) \<Longrightarrow> p = Player1 \<or> p = Player2"
  by (auto simp: DropDisc_def split: if_splits)

lemma undo_after_drop:
  assumes wf: "wf_board b" and g: "gravity b" and p: "p \<noteq> Empty"
    and d: "DropDiscUnsafe column p b = (b', Inr r)"
  shows "UndoMove column b' = Some b"
proof -
  from d obtain row where c: "0 \<le> column" "column < int Columns"
    and le: "lowest_empty b (nat column) = Some row"
    and b': "b' = set_cell b row (nat column) p"
    by (auto simp: drop_result)
  let ?c = "nat column"
  have cc: "?c < Columns" using c by simp
  from le have row: "row < Rows" and e: "cell b row ?c = Empty"
    by (simp_all add: lowest_empty_Some)
  have above: "cell b y ?c = Empty" if "y < row" for y
  proof (rule ccontr)
    assume "cell b y ?c \<noteq> Empty"
    with g cc that row have "cell b row ?c \<noteq> Empty"
      unfolding gravity_iff by blast
    with e show False by simp
  qed
  have "top_disc b' ?c = Some row"
    unfolding top_disc_Some b' using wf row cc p above
    by (simp add: cell_set_cell)
  then have "UndoMove column b' = Some (set_cell b' row ?c Empty)"
    using c by (simp add: UndoMove_def)
  also have "set_cell b' row ?c Empty = b"
    unfolding b' using wf row cc e by (rule set_cell_restore)
  finally show ?thesis .
qed

lemma wf_DropDiscUnsafe: "wf_board b \<Longrightarrow> wf_board (fst (DropDiscUnsafe column p b))"
  by (auto simp: DropDiscUnsafe_def wf_set_cell split: option.splits)

lemma wf_DropDisc: "wf_board b \<Longrightarrow> wf_board (fst (DropDisc column p b))"
  by (auto simp: DropDisc_def wf_set_cell split: option.splits)

lemma wf_UndoMove: "wf_board b \<Longrightarrow> UndoMove column b = Some b' \<Longrightarrow> wf_board b'"
  by (auto simp: UndoMove_def wf_set_cell split: option.splits if_splits)

lemma gravity_DropDiscUnsafe:
  assumes wf: "wf_board b" and g: "gravity b"
  shows "gravity (fst (DropDiscUnsafe column p b))"
proof (cases "DropDiscUnsafe column p b")
  case (Pair b' res)
  show ?thesis
  proof (cases res)
    case (Inl e)
    with Pair have "b' = b" by (auto simp: DropDiscUnsafe_def split: if_splits option.splits)
    with Pair g show ?thesis by simp
  next
    case (Inr r)
    with Pair obtain row where c: "0 \<le> column" "column < int Columns"
      and le: "lowest_empty b (nat column) = Some row"
      and b': "b' = set_cell b row (nat column) p"
      by (auto simp: drop_result)
    let ?c = "nat column"
    have cc: "?c < Columns" using c by simp
    from le have row: "row < Rows"
      and below: "\<And>y. row < y \<Longrightarrow> y < Rows \<Longrightarrow> cell b y ?c \<noteq> Empty"
      by (simp_all add: lowest_empty_Some)
    have "gravity b'"
      unfolding gravity_iff
    proof (intro allI impI, elim conjE)
      fix col r1 r2
      assume col: "col < Columns" and lt: "r1 < r2" and r2: "r2 < Rows"
        and ne: "cell b' r1 col \<noteq> Empty"
      have r1: "r1 < Rows" using lt r2 by simp
      show "cell b' r2 col \<noteq> Empty"
      proof (cases "col = ?c")
        case False
        then have "cell b' r1 col = cell b r1 col" "cell b' r2 col = cell b r2 col"
          unfolding b' using wf row cc by (simp_all add: cell_set_cell)
        with g col lt r2 ne show ?thesis unfolding gravity_iff by metis
      next
        case True
        show ?thesis
        proof (cases "r1 < row")
          case True
          then have "cell b r1 ?c \<noteq> Empty"
            using ne \<open>col = ?c\<close> wf row cc unfolding b' by (simp add: cell_set_cell)
          with g cc True row have "cell b row ?c \<noteq> Empty"
            unfolding gravity_iff by blast
          with le show ?thesis by (simp add: lowest_empty_Some)
        next
          case False
          then have "row < r2" using lt by simp
          then have "cell b' r2 col = cell b r2 ?c"
            unfolding b' using wf row cc \<open>col = ?c\<close> by (simp add: cell_set_cell)
          with below[OF \<open>row < r2\<close> r2] show ?thesis by simp
        qed
      qed
    qed
    with Pair show ?thesis by simp
  qed
qed

lemma gravity_DropDisc:
  assumes "wf_board b" "gravity b"
  shows "gravity (fst (DropDisc column p b))"
proof (cases "p = Player1 \<or> p = Player2")
  case True
  then show ?thesis using assms by (simp add: DropDisc_eq_unsafe gravity_DropDiscUnsafe)
next
  case False
  then show ?thesis using assms by (simp add: DropDisc_def)
qed

lemma gravity_UndoMove:
  assumes wf: "wf_board b" and g: "gravity b" and u: "UndoMove column b = Some b'"
  shows "gravity b'"
proof (cases "top_disc b (nat column)")
  case None
  with u have "b' = b" by (auto simp: UndoMove_def split: if_splits)
  with g show ?thesis by simp
next
  case (Some row)
  let ?c = "nat column"
  from u Some have c: "0 \<le> column" "column < int Columns"
    and b': "b' = set_cell b row ?c Empty"
    by (auto simp: UndoMove_def split: if_splits)
  have cc: "?c < Columns" using c by simp
  from Some have row: "row < Rows" and above: "\<And>y. y < row \<Longrightarrow> cell b y ?c = Empty"
    by (simp_all add: top_disc_Some)
  show ?thesis
    unfolding gravity_iff
  proof (intro allI impI, elim conjE)
    fix col r1 r2
    assume col: "col < Columns" and lt: "r1 < r2" and r2: "r2 < Rows"
      and ne: "cell b' r1 col \<noteq> Empty"
    have old: "cell b r1 col \<noteq> Empty" and neq: "\<not> (r1 = row \<and> col = ?c)"
      using ne wf row cc unfolding b' by (auto simp: cell_set_cell split: if_splits)
    have r1row: "\<not> (col = ?c \<and> r1 < row)" using above old by auto
    have "cell b r2 col \<noteq> Empty" using g col lt r2 old unfolding gravity_iff by blast
    moreover have "\<not> (r2 = row \<and> col = ?c)" using lt neq r1row by auto
    ultimately show "cell b' r2 col \<noteq> Empty"
      unfolding b' using wf row cc by (simp add: cell_set_cell)
  qed
qed

lemma gravity_NewBoard: "gravity NewBoard"
  unfolding gravity_iff by (simp add: cell_NewBoard)

lemma board_reachable_inv: "board_reachable b \<Longrightarrow> wf_board b \<and> gravity b"
proof (induction rule: board_reachable.induct)
  case br_new
  show ?case by (simp add: wf_NewBoard gravity_NewBoard)
next
  case (br_drop b column p)
  then show ?case by (simp add: wf_DropDisc gravity_DropDisc)
next
  case (br_drop_unsafe b column p)
  then show ?case by (simp add: wf_DropDiscUnsafe gravity_DropDiscUnsafe)
next
  case (br_undo b column b')
  then show ?case using wf_UndoMove gravity_UndoMove by blast
qed

subsection \<open>Claims about the board\<close>

text \<open>
  Claim C10. For every board, every column and every player value that is neither
  Player1 (1) nor Player2 (2), \<open>DropDisc\<close> returns an error and leaves the board unchanged.
  The error is the invalid-column error when the column is out of range (that check comes
  first) and the invalid-player error otherwise.
\<close>

theorem DropDisc_invalid_player:
  assumes "p \<noteq> Player1" and "p \<noteq> Player2"
  shows "DropDisc column p b =
           (b, Inl (if column < 0 \<or> column \<ge> int Columns then ErrInvalidColumn
                    else ErrInvalidPlayer))"
  using assms by (simp add: DropDisc_def)

theorem DropDisc_invalid_player_witness:
  "(3::int) \<noteq> Player1 \<and> (3::int) \<noteq> Player2 \<and>
   DropDisc 2 3 NewBoard = (NewBoard, Inl ErrInvalidPlayer)"
  using DropDisc_invalid_player [of 3 2 NewBoard] by simp

text \<open>
  Claim C5. For every prior board state, every column \<open>c\<close> and side \<open>s\<close>: if the drop
  succeeds, then undoing the move in the same column at once restores the board to exactly
  its prior value. A board state is a board the program can build (\<open>board_reachable\<close>).
  The statement covers \<open>DropDisc\<close>, which only accepts the two sides, and
  \<open>DropDiscUnsafe\<close>, which the search uses and which does not check the side: there the
  disc must not be the Empty value. The drop fills the lowest Empty cell of the column and
  the undo clears its topmost disc; the two are the same cell because no disc of a board
  built by the program floats above an Empty cell (\<open>board_reachable_inv\<close>).
\<close>

theorem drop_then_undo_restores:
  assumes "board_reachable b"
  shows "(DropDisc c s b = (b', Inr r) \<longrightarrow> UndoMove c b' = Some b) \<and>
         (s \<noteq> Empty \<and> DropDiscUnsafe c s b = (b', Inr r) \<longrightarrow> UndoMove c b' = Some b)"
proof -
  from assms have inv: "wf_board b" "gravity b"
    by (simp_all add: board_reachable_inv)
  have unsafe: "UndoMove c b' = Some b" if "s \<noteq> Empty" "DropDiscUnsafe c s b = (b', Inr r)"
    using inv that by (rule undo_after_drop)
  have safe: "UndoMove c b' = Some b" if d: "DropDisc c s b = (b', Inr r)"
  proof -
    from d have s: "s = Player1 \<or> s = Player2" by (rule DropDisc_success_player)
    then have "s \<noteq> Empty" by auto
    moreover have "DropDiscUnsafe c s b = (b', Inr r)"
      using d s by (simp add: DropDisc_eq_unsafe)
    ultimately show ?thesis by (rule unsafe)
  qed
  show ?thesis using safe unsafe by blast
qed

theorem drop_then_undo_restores_witness:
  "board_reachable (fst (DropDisc 3 Player1 NewBoard)) \<and>
   DropDisc 3 Player2 (fst (DropDisc 3 Player1 NewBoard)) =
     ([[0,0,0,0,0,0,0],[0,0,0,0,0,0,0],[0,0,0,0,0,0,0],[0,0,0,0,0,0,0],
       [0,0,0,2,0,0,0],[0,0,0,1,0,0,0]], Inr 4) \<and>
   UndoMove 3 [[0,0,0,0,0,0,0],[0,0,0,0,0,0,0],[0,0,0,0,0,0,0],[0,0,0,0,0,0,0],
               [0,0,0,2,0,0,0],[0,0,0,1,0,0,0]] = Some (fst (DropDisc 3 Player1 NewBoard))"
proof -
  have r: "board_reachable (fst (DropDisc 3 Player1 NewBoard))"
    by (intro board_reachable.intros)
  have d: "DropDisc 3 Player2 (fst (DropDisc 3 Player1 NewBoard)) =
     ([[0,0,0,0,0,0,0],[0,0,0,0,0,0,0],[0,0,0,0,0,0,0],[0,0,0,0,0,0,0],
       [0,0,0,2,0,0,0],[0,0,0,1,0,0,0]], Inr 4)"
    by code_simp
  from drop_then_undo_restores [OF r, of 3 Player2 _ 4] d r show ?thesis by simp
qed

text \<open>
  Claim C8. Gravity invariant: starting from the empty board, after any sequence of
  \<open>DropDisc\<close>, \<open>DropDiscUnsafe\<close> and \<open>UndoMove\<close> operations, every cell that lies below an
  occupied cell in the same column is itself occupied; and each of the operations
  preserves the invariant on a board of the right shape.
\<close>

theorem gravity_invariant:
  "(board_reachable b \<longrightarrow> gravity b) \<and>
   (wf_board b \<and> gravity b \<longrightarrow>
      gravity (fst (DropDisc column p b)) \<and>
      gravity (fst (DropDiscUnsafe column p b)) \<and>
      (\<forall>b'. UndoMove column b = Some b' \<longrightarrow> gravity b'))"
  using board_reachable_inv gravity_DropDisc gravity_DropDiscUnsafe gravity_UndoMove
  by blast

theorem gravity_invariant_witness:
  "board_reachable (fst (DropDisc 3 Player1 NewBoard)) \<and>
   wf_board (fst (DropDisc 3 Player1 NewBoard)) \<and>
   gravity (fst (DropDisc 3 Player1 NewBoard)) \<and>
   gravity (fst (DropDisc 3 Player2 (fst (DropDisc 3 Player1 NewBoard)))) \<and>
   UndoMove 3 (fst (DropDisc 3 Player1 NewBoard)) = Some NewBoard \<and>
   gravity NewBoard"
proof -
  have r: "board_reachable (fst (DropDisc 3 Player1 NewBoard))"
    by (intro board_reachable.intros)
  have w: "wf_board (fst (DropDisc 3 Player1 NewBoard))"
    by (simp add: wf_DropDisc wf_NewBoard)
  have u: "UndoMove 3 (fst (DropDisc 3 Player1 NewBoard)) = Some NewBoard"
    by code_simp
  from gravity_invariant [of "fst (DropDisc 3 Player1 NewBoard)" 3 Player2] r w u
  show ?thesis by blast
qed


section \<open>Properties of a match\<close>

subsection \<open>The operations, case by case, and the invariant\<close>

lemma time_Since_gt: "time_Since now t > 30 * Second \<longleftrightarrow> now - t > 30 * Second"
  by (simp add: time_Since_def time_Sub_def Let_def maxDuration_def minDuration_def)

lemma match_inv_start:
  "match_inv (NewGame gid now name1)" "match_inv (AddPlayer2 name2 isBot (NewGame gid now name1))"
  by (simp_all add: match_inv_def NewGame_def AddPlayer2_def Let_def)

lemma MakeMove_not_playing:
  "Status g \<noteq> StatusPlaying \<Longrightarrow>
   MakeMove now fin playerNum column g = (g, Inl ErrGameNotInProgress)"
  by (simp add: MakeMove_def)

lemma MakeMove_not_turn:
  "Status g = StatusPlaying \<Longrightarrow> CurrentTurn g \<noteq> playerNum \<Longrightarrow>
   MakeMove now fin playerNum column g = (g, Inl ErrNotYourTurn)"
  by (simp add: MakeMove_def)

lemma MakeMove_drop_error:
  "Status g = StatusPlaying \<Longrightarrow> CurrentTurn g = playerNum \<Longrightarrow>
   DropDisc column playerNum (Board g) = (b, Inl e) \<Longrightarrow>
   MakeMove now fin playerNum column g = (g\<lparr>Board := b\<rparr>, Inl e)"
  by (simp add: MakeMove_def)

lemma MakeMove_dropped:
  assumes "Status g = StatusPlaying" "CurrentTurn g = playerNum"
    and "DropDisc column playerNum (Board g) = (b, Inr row)"
  shows "MakeMove now fin playerNum column g =
    (let g1 = g\<lparr>Board := b,
                 Moves := Moves g @ [\<lparr>MovePlayerNum = playerNum, Column = column,
                                      Row = row, Timestamp = now\<rparr>]\<rparr>
     in if CheckWin b playerNum then
          (if playerNum = Player1
           then (g1\<lparr>Status := StatusFinished, EndTime := fin,
                     Winner := GamePlayer1 g, Result := Some ResultWinPlayer1\<rparr>, Inr row)
           else (g1\<lparr>Status := StatusFinished, EndTime := fin,
                     Winner := GamePlayer2 g, Result := Some ResultWinPlayer2\<rparr>, Inr row))
        else if IsFull b then
          (g1\<lparr>Status := StatusFinished, EndTime := fin, Result := Some ResultDraw\<rparr>, Inr row)
        else if playerNum = Player1 then (g1\<lparr>CurrentTurn := Player2\<rparr>, Inr row)
        else (g1\<lparr>CurrentTurn := Player1\<rparr>, Inr row))"
  using assms by (simp add: MakeMove_def Let_def)

lemma match_inv_MakeMove:
  assumes "match_inv g"
  shows "match_inv (fst (MakeMove now fin playerNum column g))"
proof (cases "Status g = StatusPlaying \<and> CurrentTurn g = playerNum")
  case False
  then have "fst (MakeMove now fin playerNum column g) = g"
    by (cases "Status g = StatusPlaying") (simp_all add: MakeMove_not_playing MakeMove_not_turn)
  then show ?thesis using assms by simp
next
  case True
  obtain b res where d: "DropDisc column playerNum (Board g) = (b, res)"
    by (cases "DropDisc column playerNum (Board g)")
  show ?thesis
  proof (cases res)
    case (Inl e)
    with True d have "MakeMove now fin playerNum column g = (g\<lparr>Board := b\<rparr>, Inl e)"
      by (simp add: MakeMove_drop_error)
    then show ?thesis using assms by (simp add: match_inv_def)
  next
    case (Inr row)
    with True d show ?thesis using assms
      by (simp add: MakeMove_dropped Let_def match_inv_def)
  qed
qed

lemma set_connected_Some:
  assumes "set_connected playerNum v g = Some g'"
  shows "(playerNum = Player1 \<and>
            (\<exists>pl. GamePlayer1 g = Some pl \<and> g' = g\<lparr>GamePlayer1 := Some (pl\<lparr>IsConnected := v\<rparr>)\<rparr>)) \<or>
         (playerNum \<noteq> Player1 \<and>
            (\<exists>pl. GamePlayer2 g = Some pl \<and> g' = g\<lparr>GamePlayer2 := Some (pl\<lparr>IsConnected := v\<rparr>)\<rparr>))"
proof (cases "playerNum = Player1")
  case True
  with assms show ?thesis by (cases "GamePlayer1 g") (simp_all add: set_connected_def)
next
  case False
  with assms show ?thesis by (cases "GamePlayer2 g") (simp_all add: set_connected_def)
qed

lemma set_connected_fields:
  assumes "set_connected playerNum v g = Some g'"
  shows "Status g' = Status g" "Winner g' = Winner g" "Result g' = Result g"
    "DisconnectedPlayer g' = DisconnectedPlayer g" "DisconnectTime g' = DisconnectTime g"
    "Board g' = Board g" "Moves g' = Moves g" "CurrentTurn g' = CurrentTurn g"
  using set_connected_Some[OF assms] by auto

lemma match_inv_set_connected:
  assumes "set_connected playerNum v g = Some g'" "match_inv g"
  shows "match_inv g'"
  using set_connected_Some[OF assms(1)]
proof (elim disjE conjE exE)
  fix pl assume "GamePlayer1 g = Some pl" "g' = g\<lparr>GamePlayer1 := Some (pl\<lparr>IsConnected := v\<rparr>)\<rparr>"
  with assms(2) show ?thesis by (simp add: match_inv_def)
next
  fix pl assume "GamePlayer2 g = Some pl" "g' = g\<lparr>GamePlayer2 := Some (pl\<lparr>IsConnected := v\<rparr>)\<rparr>"
  with assms(2) show ?thesis by (simp add: match_inv_def)
qed

lemma match_inv_PlayerDisconnected:
  assumes "match_inv g" "PlayerDisconnected now playerNum g = Some g'"
  shows "match_inv g'"
proof (cases "Status g = StatusPlaying")
  case False
  with assms show ?thesis by (simp add: PlayerDisconnected_def)
next
  case True
  let ?g1 = "g\<lparr>DisconnectedPlayer := playerNum, DisconnectTime := now, Status := StatusDisconnect\<rparr>"
  have "match_inv ?g1" using assms(1) True by (simp add: match_inv_def)
  moreover have "set_connected playerNum False ?g1 = Some g'"
    using assms(2) True by (simp add: PlayerDisconnected_def)
  ultimately show ?thesis using match_inv_set_connected by blast
qed

lemma PlayerReconnected_success:
  assumes "Status g = StatusDisconnect" "DisconnectedPlayer g = playerNum"
    and "\<not> time_Since now (DisconnectTime g) > 30 * Second"
  shows "PlayerReconnected now playerNum g =
     (case set_connected playerNum True
                  (g\<lparr>Status := StatusPlaying, DisconnectedPlayer := 0, DisconnectTime := 0\<rparr>) of
             None \<Rightarrow> None
           | Some g' \<Rightarrow> Some (g', True))"
  using assms by (simp add: PlayerReconnected_def)

lemma PlayerReconnected_refused:
  assumes "\<not> (Status g = StatusDisconnect \<and> DisconnectedPlayer g = playerNum \<and>
             \<not> time_Since now (DisconnectTime g) > 30 * Second)"
  shows "PlayerReconnected now playerNum g = Some (g, False)"
  using assms by (auto simp add: PlayerReconnected_def)

lemma match_inv_PlayerReconnected:
  assumes "match_inv g" "PlayerReconnected now playerNum g = Some (g', ok)"
  shows "match_inv g'"
proof (cases "Status g = StatusDisconnect \<and> DisconnectedPlayer g = playerNum \<and>
             \<not> time_Since now (DisconnectTime g) > 30 * Second")
  case False
  then have "PlayerReconnected now playerNum g = Some (g, False)"
    by (rule PlayerReconnected_refused)
  with assms show ?thesis by simp
next
  case True
  let ?g1 = "g\<lparr>Status := StatusPlaying, DisconnectedPlayer := 0, DisconnectTime := 0\<rparr>"
  have "match_inv ?g1" using assms(1) True by (simp add: match_inv_def)
  moreover have "set_connected playerNum True ?g1 = Some g'"
    using assms(2) True by (simp add: PlayerReconnected_success split: option.splits)
  ultimately show ?thesis using match_inv_set_connected by blast
qed

lemma match_inv_Forfeit: "match_inv g \<Longrightarrow> match_inv (Forfeit now loser g)"
  by (auto simp: Forfeit_def match_inv_def Let_def)

lemma match_reachable_inv: "match_reachable g \<Longrightarrow> match_inv g"
proof (induction rule: match_reachable.induct)
  case (mr_new gid now name1)
  show ?case by (rule match_inv_start)
next
  case (mr_add name2 isBot gid now name1)
  show ?case by (rule match_inv_start)
next
  case (mr_move g now fin playerNum column)
  then show ?case by (simp add: match_inv_MakeMove)
next
  case (mr_disconnect g now playerNum g')
  then show ?case using match_inv_PlayerDisconnected by blast
next
  case (mr_reconnect g now playerNum g' ok)
  then show ?case using match_inv_PlayerReconnected by blast
next
  case (mr_forfeit g now loserPlayerNum)
  then show ?case by (simp add: match_inv_Forfeit)
qed

lemma match_reachable_replay: "match_reachable g \<Longrightarrow> match_reachable (replay g ms)"
  by (induction g ms rule: replay.induct) (simp_all add: mr_move)

lemma Forfeit_fields:
  "Status (Forfeit now l g) = StatusFinished"
  "Result (Forfeit now l g) = Some ResultForfeit"
  "Winner (Forfeit now l g) = (if l = Player1 then GamePlayer2 g else GamePlayer1 g)"
  "GamePlayer1 (Forfeit now l g) = GamePlayer1 g"
  "GamePlayer2 (Forfeit now l g) = GamePlayer2 g"
  by (simp_all add: Forfeit_def Let_def)

lemma match_reachable_example: "match_reachable example_match"
  unfolding example_match_def by (rule mr_add)

subsection \<open>Claims about a match\<close>

text \<open>
  Claim C1. \<open>Forfeit\<close> sets the status to Finished, the result to Forfeit and the winner
  to the player of the opposite side (\<open>Forfeit_fields\<close>); on a match that is already
  Finished a call must change nothing, so that the recorded result and winner survive.
  The code has no test of the status and does change them. On the match that side 1 has
  just won by four in a row, \<open>Forfeit\<close> against side 1 replaces the recorded result by
  Forfeit and the recorded winner by the player of side 2; and after a forfeit of side 1,
  a forfeit of side 2 turns the winner from the player of side 2 into the player of side 1.
\<close>

theorem Forfeit_finished_overwrites:
  "Status example_won = StatusFinished \<and>
   Result example_won = Some ResultWinPlayer1 \<and>
   Winner example_won = GamePlayer1 example_won \<and>
   Status (Forfeit 9 Player1 example_won) = StatusFinished \<and>
   Result (Forfeit 9 Player1 example_won) = Some ResultForfeit \<and>
   Result (Forfeit 9 Player1 example_won) \<noteq> Result example_won \<and>
   Winner (Forfeit 9 Player1 example_won) = GamePlayer2 example_won \<and>
   Winner (Forfeit 9 Player1 example_won) \<noteq> Winner example_won \<and>
   Status (Forfeit 9 Player1 example_match) = StatusFinished \<and>
   Winner (Forfeit 9 Player1 example_match) = GamePlayer2 example_match \<and>
   Winner (Forfeit 10 Player2 (Forfeit 9 Player1 example_match)) = GamePlayer1 example_match \<and>
   Winner (Forfeit 10 Player2 (Forfeit 9 Player1 example_match)) \<noteq>
     Winner (Forfeit 9 Player1 example_match)"
  by code_simp

text \<open>
  Claim C3. \<open>MakeMove\<close> by the player who does not hold the turn, in status Playing,
  returns the not-your-turn error; \<open>MakeMove\<close> in any other status returns the
  not-in-progress error. In both cases the match returned is the match given: board, move
  log, current turn and status are unchanged.
\<close>

theorem MakeMove_rejected:
  "(Status g = StatusPlaying \<and> CurrentTurn g \<noteq> playerNum \<longrightarrow>
      MakeMove now fin playerNum column g = (g, Inl ErrNotYourTurn)) \<and>
   (Status g \<noteq> StatusPlaying \<longrightarrow>
      MakeMove now fin playerNum column g = (g, Inl ErrGameNotInProgress))"
  by (simp add: MakeMove_not_playing MakeMove_not_turn)

theorem MakeMove_rejected_witness:
  "Status example_match = StatusPlaying \<and> CurrentTurn example_match \<noteq> Player2 \<and>
   MakeMove 1 2 Player2 3 example_match = (example_match, Inl ErrNotYourTurn) \<and>
   Status example_won \<noteq> StatusPlaying \<and>
   MakeMove 1 2 Player2 3 example_won = (example_won, Inl ErrGameNotInProgress)"
proof -
  have a: "Status example_match = StatusPlaying" "CurrentTurn example_match \<noteq> Player2"
    by (simp_all add: example_match_def AddPlayer2_def NewGame_def)
  have b: "Status example_won \<noteq> StatusPlaying" by code_simp
  from MakeMove_rejected [of example_match Player2 1 2 3]
       MakeMove_rejected [of example_won Player2 1 2 3] a b
  show ?thesis by simp
qed

text \<open>
  Claim C4. On every match the program builds, \<open>PlayerReconnected\<close> returns true and
  restores status Playing if and only if the status is Disconnected, the recorded
  disconnected player is exactly that side, and at most 30 seconds have passed since the
  disconnect; in every other case it returns false and the match is unchanged.
\<close>

theorem PlayerReconnected_iff:
  assumes "match_reachable g"
  shows "((\<exists>g'. PlayerReconnected now side g = Some (g', True) \<and> Status g' = StatusPlaying) \<longleftrightarrow>
            Status g = StatusDisconnect \<and> DisconnectedPlayer g = side \<and>
            now - DisconnectTime g \<le> 30 * Second) \<and>
         (\<not> (Status g = StatusDisconnect \<and> DisconnectedPlayer g = side \<and>
              now - DisconnectTime g \<le> 30 * Second) \<longrightarrow>
            PlayerReconnected now side g = Some (g, False))"
proof -
  let ?ok = "Status g = StatusDisconnect \<and> DisconnectedPlayer g = side \<and>
             now - DisconnectTime g \<le> 30 * Second"
  have ok_iff: "?ok \<longleftrightarrow> (Status g = StatusDisconnect \<and> DisconnectedPlayer g = side \<and>
             \<not> time_Since now (DisconnectTime g) > 30 * Second)"
    using time_Since_gt [of now "DisconnectTime g"] by auto
  have refused: "PlayerReconnected now side g = Some (g, False)" if "\<not> ?ok"
    using that unfolding ok_iff by (rule PlayerReconnected_refused)
  have accepted: "\<exists>g'. PlayerReconnected now side g = Some (g', True) \<and> Status g' = StatusPlaying"
    if ok: "?ok"
  proof -
    let ?g1 = "g\<lparr>Status := StatusPlaying, DisconnectedPlayer := 0, DisconnectTime := 0\<rparr>"
    from assms have inv: "match_inv g" by (rule match_reachable_inv)
    with ok have p: "GamePlayer1 g \<noteq> None" "GamePlayer2 g \<noteq> None"
      by (auto simp: match_inv_def)
    then obtain g' where sc: "set_connected side True ?g1 = Some g'"
      by (cases "side = Player1") (auto simp: set_connected_def)
    have "Status g' = StatusPlaying" using set_connected_fields(1)[OF sc] by simp
    moreover have "PlayerReconnected now side g = Some (g', True)"
      using ok sc unfolding ok_iff by (simp add: PlayerReconnected_success)
    ultimately show ?thesis by blast
  qed
  show ?thesis
  proof (cases ?ok)
    case True
    then show ?thesis using accepted by blast
  next
    case False
    then show ?thesis using refused by auto
  qed
qed

theorem PlayerReconnected_iff_witness:
  "match_reachable example_disconnected \<and>
   Status example_disconnected = StatusDisconnect \<and>
   DisconnectedPlayer example_disconnected = Player1 \<and>
   DisconnectTime example_disconnected = 5 \<and>
   (\<exists>g'. PlayerReconnected (5 + 29 * Second) Player1 example_disconnected = Some (g', True) \<and>
         Status g' = StatusPlaying) \<and>
   PlayerReconnected (5 + 31 * Second) Player1 example_disconnected =
     Some (example_disconnected, False) \<and>
   PlayerReconnected (5 + 29 * Second) Player2 example_disconnected =
     Some (example_disconnected, False)"
proof -
  have d: "PlayerDisconnected 5 Player1 example_match = Some example_disconnected"
    by code_simp
  have r: "match_reachable example_disconnected"
    using match_reachable_example d by (rule mr_disconnect)
  have f: "Status example_disconnected = StatusDisconnect"
    "DisconnectedPlayer example_disconnected = Player1"
    "DisconnectTime example_disconnected = 5"
    by code_simp+
  from PlayerReconnected_iff [OF r, of "5 + 29 * Second" Player1]
       PlayerReconnected_iff [OF r, of "5 + 31 * Second" Player1]
       PlayerReconnected_iff [OF r, of "5 + 29 * Second" Player2] r f
  show ?thesis by simp
qed

text \<open>
  Claim C2. On every match the program builds that is in status Playing with the turn at
  the moving side, a successful \<open>MakeMove\<close> appends exactly one move record (the side, the
  column, the row the disc landed in, the time) and leaves the board as \<open>DropDisc\<close> made it.
  Then: if that board has four in a row for the side, the status is Finished, the winner
  is that side's player and the result is that side's win; otherwise, if the board is
  full, the status is Finished, the result is the draw and there is no winner; otherwise
  the match is still Playing and the turn is at the other side.
\<close>

theorem MakeMove_success:
  assumes "match_reachable g" and "Status g = StatusPlaying" and "CurrentTurn g = side"
    and "MakeMove now fin side column g = (g', Inr row)"
  shows "Moves g' = Moves g @ [\<lparr>MovePlayerNum = side, Column = column, Row = row,
                                 Timestamp = now\<rparr>] \<and>
         DropDisc column side (Board g) = (Board g', Inr row) \<and>
         (if CheckWin (Board g') side
          then Status g' = StatusFinished \<and>
               Winner g' = (if side = Player1 then GamePlayer1 g' else GamePlayer2 g') \<and>
               (\<exists>p. Winner g' = Some p \<and> PlayerNum p = side) \<and>
               Result g' = Some (if side = Player1 then ResultWinPlayer1 else ResultWinPlayer2)
          else if IsFull (Board g')
          then Status g' = StatusFinished \<and> Result g' = Some ResultDraw \<and> Winner g' = None
          else Status g' = StatusPlaying \<and> Winner g' = None \<and>
               (side = Player1 \<and> CurrentTurn g' = Player2 \<or>
                side = Player2 \<and> CurrentTurn g' = Player1))"
proof -
  from assms(1) have inv: "match_inv g" by (rule match_reachable_inv)
  obtain b res where d: "DropDisc column side (Board g) = (b, res)"
    by (cases "DropDisc column side (Board g)")
  have res: "res = Inr row"
  proof (cases res)
    case (Inl e)
    with assms d show ?thesis by (simp add: MakeMove_drop_error)
  next
    case (Inr r)
    with assms d show ?thesis by (simp add: MakeMove_dropped Let_def split: if_splits)
  qed
  from d res have side: "side = Player1 \<or> side = Player2"
    by (auto dest: DropDisc_success_player)
  from inv assms(2) obtain p1 p2 where
    p1: "GamePlayer1 g = Some p1" "PlayerNum p1 = Player1" and
    p2: "GamePlayer2 g = Some p2" "PlayerNum p2 = Player2" and
    w: "Winner g = None"
    by (auto simp: match_inv_def)
  note mm = MakeMove_dropped [OF assms(2,3) d[unfolded res], of now fin]
  show ?thesis
  proof (cases "CheckWin b side")
    case True
    with mm assms(4) side p1 p2 show ?thesis
      by (auto simp: Let_def d res)
  next
    case nowin: False
    show ?thesis
    proof (cases "IsFull b")
      case True
      with mm assms(4) nowin w show ?thesis
        by (auto simp: Let_def d res)
    next
      case False
      with mm assms(2,4) nowin w side show ?thesis
        by (auto simp: Let_def d res)
    qed
  qed
qed

theorem MakeMove_success_witness:
  "match_reachable example_before_win \<and>
   Status example_before_win = StatusPlaying \<and>
   CurrentTurn example_before_win = Player1 \<and>
   MakeMove 0 0 Player1 3 example_before_win = (example_won, Inr 5) \<and>
   CheckWin (Board example_won) Player1 \<and>
   Status example_won = StatusFinished \<and>
   Winner example_won = GamePlayer1 example_won \<and>
   Result example_won = Some ResultWinPlayer1 \<and>
   match_reachable example_before_draw \<and>
   Status example_before_draw = StatusPlaying \<and>
   CurrentTurn example_before_draw = Player2 \<and>
   MakeMove 0 0 Player2 5 example_before_draw = (example_drawn, Inr 0) \<and>
   \<not> CheckWin (Board example_drawn) Player2 \<and>
   IsFull (Board example_drawn) \<and>
   Status example_drawn = StatusFinished \<and>
   Result example_drawn = Some ResultDraw \<and>
   Winner example_drawn = None \<and>
   match_reachable example_match \<and>
   Status example_match = StatusPlaying \<and>
   CurrentTurn example_match = Player1 \<and>
   MakeMove 0 0 Player1 3 example_match = (fst (MakeMove 0 0 Player1 3 example_match), Inr 5) \<and>
   CurrentTurn (fst (MakeMove 0 0 Player1 3 example_match)) = Player2"
proof -
  have r1: "match_reachable example_before_win"
    unfolding example_before_win_def using match_reachable_example
    by (rule match_reachable_replay)
  have h1: "Status example_before_win = StatusPlaying"
    "CurrentTurn example_before_win = Player1"
    "MakeMove 0 0 Player1 3 example_before_win = (example_won, Inr 5)"
    "CheckWin (Board example_won) Player1"
    by code_simp+
  have r2: "match_reachable example_before_draw"
    unfolding example_before_draw_def using match_reachable_example
    by (rule match_reachable_replay)
  have h2: "Status example_before_draw = StatusPlaying"
    "CurrentTurn example_before_draw = Player2"
    "MakeMove 0 0 Player2 5 example_before_draw = (example_drawn, Inr 0)"
    "\<not> CheckWin (Board example_drawn) Player2"
    "IsFull (Board example_drawn)"
    by code_simp+
  have h3: "Status example_match = StatusPlaying"
    "CurrentTurn example_match = Player1"
    "MakeMove 0 0 Player1 3 example_match = (fst (MakeMove 0 0 Player1 3 example_match), Inr 5)"
    "\<not> CheckWin (Board (fst (MakeMove 0 0 Player1 3 example_match))) Player1"
    "\<not> IsFull (Board (fst (MakeMove 0 0 Player1 3 example_match)))"
    by code_simp+
  from MakeMove_success [OF r1 h1(1,2,3)] h1(4)
  have c1: "Status example_won = StatusFinished"
    "Winner example_won = GamePlayer1 example_won"
    "Result example_won = Some ResultWinPlayer1"
    by simp_all
  from MakeMove_success [OF r2 h2(1,2,3)] h2(4,5)
  have c2: "Status example_drawn = StatusFinished"
    "Result example_drawn = Some ResultDraw" "Winner example_drawn = None"
    by simp_all
  from MakeMove_success [OF match_reachable_example h3(1,2,3)] h3(4,5)
  have c3: "CurrentTurn (fst (MakeMove 0 0 Player1 3 example_match)) = Player2"
    by simp
  from r1 h1 c1 r2 h2 c2 match_reachable_example h3 c3 show ?thesis by blast
qed


section \<open>Properties of the search engine\<close>

subsection \<open>Valid columns, the copy of the board, and the loops\<close>

lemma valid_columns_iff:
  "c \<in> set (getValidColumnsUnsafe b) \<longleftrightarrow> 0 \<le> c \<and> c < int Columns \<and> cell b 0 (nat c) = Empty"
proof
  assume "c \<in> set (getValidColumnsUnsafe b)"
  then obtain n where "n < Columns" "cell b 0 n = Empty" "c = int n"
    by (auto simp: getValidColumnsUnsafe_def)
  then show "0 \<le> c \<and> c < int Columns \<and> cell b 0 (nat c) = Empty" by simp
next
  assume a: "0 \<le> c \<and> c < int Columns \<and> cell b 0 (nat c) = Empty"
  then have "nat c \<in> set (filter (\<lambda>col. cell b 0 col = Empty) [0..<Columns])" by auto
  then have "int (nat c) \<in> set (getValidColumnsUnsafe b)"
    unfolding getValidColumnsUnsafe_def by (simp only: set_map image_eqI)
  with a show "c \<in> set (getValidColumnsUnsafe b)" by simp
qed

lemma valid_columns_empty_iff: "getValidColumnsUnsafe b = [] \<longleftrightarrow> isFullUnsafe b"
  by (auto simp: getValidColumnsUnsafe_def isFullUnsafe_def filter_empty_conv)

lemma UndoMove_in_range:
  "0 \<le> c \<Longrightarrow> c < int Columns \<Longrightarrow> \<exists>b'. UndoMove c b = Some b'"
  by (simp add: UndoMove_def split: option.splits)

lemma cell_Clone: "row < Rows \<Longrightarrow> col < Columns \<Longrightarrow> cell (Clone b) row col = cell b row col"
  unfolding Clone_def cell_def[of "map _ _"] by simp



lemma valid_columns_Clone: "getValidColumnsUnsafe (Clone b) = getValidColumnsUnsafe b"
proof -
  have "filter (\<lambda>col. cell (Clone b) 0 col = Empty) [0..<Columns] =
        filter (\<lambda>col. cell b 0 col = Empty) [0..<Columns]"
    by (rule filter_cong) (simp_all add: cell_Clone)
  then show ?thesis by (simp only: getValidColumnsUnsafe_def)
qed

lemma in_range_simps:
  "in_range []" "in_range (c # cols) \<longleftrightarrow> 0 \<le> c \<and> c < int Columns \<and> in_range cols"
  by (auto simp: in_range_def)

lemma in_range_valid: "in_range (getValidColumnsUnsafe b)"
  by (simp add: in_range_def valid_columns_iff)

lemma minimax_total:
  "\<exists>r. minimax bt b depth alpha beta isMaximizing = Some r"
  "in_range cols \<Longrightarrow> \<exists>r. max_loop bt cols b d alpha beta maxScore = Some r"
  "in_range cols \<Longrightarrow> \<exists>r. min_loop bt cols b d alpha beta minScore = Some r"
proof (induction bt b depth alpha beta isMaximizing and bt cols b d alpha beta maxScore
         and bt cols b d alpha beta minScore rule: minimax_max_loop_min_loop.induct)
  case (1 bt b depth alpha beta isMaximizing)
  show ?case
  proof (cases "checkWinUnsafe b (player bt) \<or> checkWinUnsafe b (opponent bt) \<or>
                isFullUnsafe b \<or> depth = 0 \<or> getValidColumnsUnsafe b = []")
    case True
    then show ?thesis by (subst minimax.simps) auto
  next
    case False
    then have c: "\<not> checkWinUnsafe b (player bt)" "\<not> checkWinUnsafe b (opponent bt)"
      "\<not> (isFullUnsafe b \<or> depth = 0)" "getValidColumnsUnsafe b \<noteq> []"
      by auto
    show ?thesis
    proof (cases isMaximizing)
      case True
      from "1.IH"(1)[OF c True in_range_valid] obtain r where
        "max_loop bt (getValidColumnsUnsafe b) b (depth - 1) alpha beta MinInt32 = Some r" ..
      with c True show ?thesis by (subst minimax.simps) simp
    next
      case False
      from "1.IH"(2)[OF c False in_range_valid] obtain r where
        "min_loop bt (getValidColumnsUnsafe b) b (depth - 1) alpha beta MaxInt32 = Some r" ..
      with c False show ?thesis by (subst minimax.simps) simp
    qed
  qed
next
  case (2 bt b d alpha beta maxScore)
  show ?case by simp
next
  case (3 bt col cols b d alpha beta maxScore)
  from "3.prems" have col: "0 \<le> col" "col < int Columns" and cols: "in_range cols"
    by (simp_all add: in_range_simps)
  from "3.IH"(1) obtain score b1 where
    m: "minimax bt (fst (DropDiscUnsafe col (player bt) b)) d alpha beta False = Some (score, b1)"
    by fastforce
  from UndoMove_in_range[OF col] obtain b2 where u: "UndoMove col b1 = Some b2" by blast
  show ?case
  proof (cases "beta \<le> max alpha score")
    case True
    with m u show ?thesis by simp
  next
    case False
    from "3.IH"(2)[OF m refl u False cols] m u False
    show ?thesis by simp
  qed
next
  case (4 bt b d alpha beta minScore)
  show ?case by simp
next
  case (5 bt col cols b d alpha beta minScore)
  from "5.prems" have col: "0 \<le> col" "col < int Columns" and cols: "in_range cols"
    by (simp_all add: in_range_simps)
  from "5.IH"(1) obtain score b1 where
    m: "minimax bt (fst (DropDiscUnsafe col (opponent bt) b)) d alpha beta True = Some (score, b1)"
    by fastforce
  from UndoMove_in_range[OF col] obtain b2 where u: "UndoMove col b1 = Some b2" by blast
  show ?case
  proof (cases "min beta score \<le> alpha")
    case True
    with m u show ?thesis by simp
  next
    case False
    from "5.IH"(2)[OF m refl u False cols] m u False
    show ?thesis by simp
  qed
qed


lemma win_scan_total:
  "in_range cols \<Longrightarrow>
   \<exists>r b'. win_scan side cols b = Some (r, b') \<and> (\<forall>c. r = Some c \<longrightarrow> c \<in> set cols)"
proof (induction cols arbitrary: b)
  case Nil
  show ?case by simp
next
  case (Cons col cols)
  from Cons.prems have col: "0 \<le> col" "col < int Columns" and cols: "in_range cols"
    by (simp_all add: in_range_simps)
  let ?b1 = "fst (DropDiscUnsafe col side b)"
  from UndoMove_in_range[OF col] obtain b2 where u: "UndoMove col ?b1 = Some b2" by blast
  show ?case
  proof (cases "checkWinUnsafe ?b1 side")
    case True
    with u show ?thesis by (simp add: Let_def)
  next
    case False
    from Cons.IH[OF cols, of b2] obtain r b' where
      "win_scan side cols b2 = Some (r, b')" "\<forall>c. r = Some c \<longrightarrow> c \<in> set cols" by blast
    with u False show ?thesis by (simp add: Let_def)
  qed
qed



lemma best_loop_total:
  "in_range cols \<Longrightarrow>
   \<exists>c b'. best_loop bt cols b bestScore bestCol = Some (c, b') \<and> (c = bestCol \<or> c \<in> set cols)"
proof (induction cols arbitrary: b bestScore bestCol)
  case Nil
  show ?case by simp
next
  case (Cons col cols)
  from Cons.prems have col: "0 \<le> col" "col < int Columns" and cols: "in_range cols"
    by (simp_all add: in_range_simps)
  from minimax_total(1) obtain score b1 where
    m: "minimax bt (fst (DropDiscUnsafe col (player bt) b)) (maxDepth bt - 1)
          MinInt32 MaxInt32 False = Some (score, b1)"
    by fastforce
  from UndoMove_in_range[OF col] obtain b2 where u: "UndoMove col b1 = Some b2" by blast
  show ?case
  proof (cases "score > bestScore")
    case True
    from Cons.IH[OF cols, of b2 score col] obtain c b' where
      "best_loop bt cols b2 score col = Some (c, b')" "c = col \<or> c \<in> set cols" by blast
    with m u True show ?thesis by auto
  next
    case False
    from Cons.IH[OF cols, of b2 bestScore bestCol] obtain c b' where
      "best_loop bt cols b2 bestScore bestCol = Some (c, b')" "c = bestCol \<or> c \<in> set cols"
      by blast
    with m u False show ?thesis by auto
  qed
qed

lemma GetBestMove_full:
  assumes "isFullUnsafe b"
  shows "GetBestMove bt b = None"
proof -
  from assms have "getValidColumnsUnsafe (Clone b) = []"
    by (simp add: valid_columns_Clone valid_columns_empty_iff)
  then show ?thesis by (simp add: GetBestMove_def Let_def)
qed

lemma GetBestMove_not_full:
  assumes "\<not> isFullUnsafe b"
  shows "\<exists>c. GetBestMove bt b = Some c \<and> c \<in> set (getValidColumnsUnsafe b)"
proof -
  let ?V = "getValidColumnsUnsafe b"
  have V: "getValidColumnsUnsafe (Clone b) = ?V" by (rule valid_columns_Clone)
  from assms obtain c0 rest where V0: "?V = c0 # rest"
    by (cases ?V) (simp_all add: valid_columns_empty_iff)
  have rV: "in_range ?V" by (rule in_range_valid)
  from win_scan_total[OF rV, of "player bt" "Clone b"] obtain r1 b1 where
    s1: "win_scan (player bt) ?V (Clone b) = Some (r1, b1)"
    and m1: "\<forall>c. r1 = Some c \<longrightarrow> c \<in> set ?V" by blast
  show ?thesis
  proof (cases r1)
    case (Some c)
    with s1 m1 show ?thesis by (simp add: GetBestMove_def Let_def V)
  next
    case n1: None
    from win_scan_total[OF rV, of "opponent bt" b1] obtain r2 b2 where
      s2: "win_scan (opponent bt) ?V b1 = Some (r2, b2)"
      and m2: "\<forall>c. r2 = Some c \<longrightarrow> c \<in> set ?V" by blast
    show ?thesis
    proof (cases r2)
      case (Some c)
      with s1 n1 s2 m2 show ?thesis by (simp add: GetBestMove_def Let_def V)
    next
      case n2: None
      let ?O = "filter (\<lambda>col. col \<in> set ?V) columnOrder"
      have "in_range ?O" using rV by (auto simp: in_range_def)
      from best_loop_total[OF this, of bt b2 MinInt32 c0] obtain c b3 where
        bl: "best_loop bt ?O b2 MinInt32 c0 = Some (c, b3)" and c: "c = c0 \<or> c \<in> set ?O"
        by blast
      from c V0 have "c \<in> set ?V" by auto
      moreover have "GetBestMove bt b = Some c"
        using s1 n1 s2 n2 bl V0 by (simp add: GetBestMove_def Let_def V)
      ultimately show ?thesis by blast
    qed
  qed
qed





subsection \<open>Claims about the search engine\<close>



text \<open>
  Claim C9. For every board that has at least one non-full column, \<open>GetBestMove\<close> returns
  a column of \<open>GetValidColumns\<close>: a column of the board whose top cell is Empty. On a
  board without such a column it does not return: it indexes the empty list of valid
  columns, a run-time panic.
\<close>

theorem GetBestMove_valid_column:
  "(\<not> IsFull b \<longrightarrow>
      (\<exists>c. GetBestMove (NewBot side) b = Some c \<and> c \<in> set (GetValidColumns b) \<and>
           0 \<le> c \<and> c < int Columns \<and> cell b 0 (nat c) = Empty)) \<and>
   (IsFull b \<longrightarrow> GetBestMove (NewBot side) b = None)"
proof (cases "isFullUnsafe b")
  case True
  then show ?thesis by (simp add: IsFull_def GetBestMove_full)
next
  case False
  from GetBestMove_not_full[OF False, of "NewBot side"] obtain c where
    "GetBestMove (NewBot side) b = Some c" "c \<in> set (getValidColumnsUnsafe b)" by blast
  with False show ?thesis
    by (auto simp: IsFull_def GetValidColumns_def valid_columns_iff)
qed

theorem GetBestMove_valid_column_witness:
  "\<not> IsFull NewBoard \<and>
   (\<exists>c. GetBestMove (NewBot Player2) NewBoard = Some c \<and> c \<in> set (GetValidColumns NewBoard)) \<and>
   IsFull (Board example_drawn) \<and>
   GetBestMove (NewBot Player2) (Board example_drawn) = None"
proof -
  have a: "\<not> IsFull NewBoard" by code_simp
  have b: "IsFull (Board example_drawn)" by code_simp
  from GetBestMove_valid_column [of NewBoard Player2]
       GetBestMove_valid_column [of "Board example_drawn" Player2] a b
  show ?thesis by blast
qed

section \<open>Properties of the matchmaker\<close>

text \<open>The first branch of \<open>JoinQueue\<close> hands back the registered match of the caller
  whatever the status of that match; the second pairs the caller with the oldest waiting
  player, whose channel and the caller's both receive the new match, and leaves the rest
  of the queue as it was.\<close>

lemma JoinQueue_existing:
  assumes "playerGames m username = Some gameID" and "activeGames m gameID = Some g"
  shows "JoinQueue gid now username (m, cs) = Inr (m, cs @ [Chan [g]], length cs)"
  using assms by (simp add: JoinQueue_def)

lemma JoinQueue_pairs:
  assumes "playerGames m username = None \<or>
           (\<exists>gameID. playerGames m username = Some gameID \<and> activeGames m gameID = None)"
    and "waitingQueue m = opp # rest"
    and "MatchChan opp < length cs" and "cs ! MatchChan opp = Chan []"
    and "g = AddPlayer2 username False (NewGame gid now (WaitingUsername opp))"
  shows "JoinQueue gid now username (m, cs) =
           Inr (m\<lparr>waitingQueue := rest,
                   activeGames := (activeGames m)(gid \<mapsto> g),
                   playerGames := (playerGames m)(WaitingUsername opp \<mapsto> gid, username \<mapsto> gid)\<rparr>,
                cs[MatchChan opp := Chan [g]] @ [Chan [g]], length cs)"
proof -
  have none: "(case playerGames m username of None \<Rightarrow> None
               | Some gameID \<Rightarrow> activeGames m gameID) = None"
    using assms(1) by (auto split: option.splits)
  have gid: "ID g = gid" by (simp add: assms(5) AddPlayer2_def NewGame_def)
  have send: "chan_send cs (MatchChan opp) g = Inr (cs[MatchChan opp := Chan [g]])"
    using assms(3,4) by (simp add: chan_send_def)
  show ?thesis
    unfolding JoinQueue_def Let_def fst_conv snd_conv none
    using assms(2) send gid assms(5) by simp
qed

text \<open>How the example registry comes about: alice joins the empty matchmaker and waits, bob
  joins and is paired with her in match \<open>g1\<close>. The registry holds the match by reference, so
  once the moves of \<open>example_won\<close> are played it holds that match.\<close>

lemma example_matchmaker_built:
  "JoinQueue ''g0'' 0 ''alice'' (NewMatchmaker, []) =
     Inr (NewMatchmaker\<lparr>waitingQueue := [\<lparr>WaitingUsername = ''alice'', JoinedAt = 0, MatchChan = 0\<rparr>]\<rparr>,
          [Chan []], 0)"
  "JoinQueue ''g1'' 0 ''bob''
     (NewMatchmaker\<lparr>waitingQueue := [\<lparr>WaitingUsername = ''alice'', JoinedAt = 0, MatchChan = 0\<rparr>]\<rparr>,
      [Chan []]) =
     Inr (example_matchmaker\<lparr>activeGames := [''g1'' \<mapsto> example_match]\<rparr>,
          [Chan [example_match], Chan [example_match]], 1)"
proof -
  show "JoinQueue ''g0'' 0 ''alice'' (NewMatchmaker, []) =
     Inr (NewMatchmaker\<lparr>waitingQueue := [\<lparr>WaitingUsername = ''alice'', JoinedAt = 0, MatchChan = 0\<rparr>]\<rparr>,
          [Chan []], 0)"
    by (simp add: JoinQueue_def NewMatchmaker_def)
  have g: "AddPlayer2 ''bob'' False (NewGame ''g1'' 0 ''alice'') = example_match"
    by (simp add: example_match_def)
  show "JoinQueue ''g1'' 0 ''bob''
     (NewMatchmaker\<lparr>waitingQueue := [\<lparr>WaitingUsername = ''alice'', JoinedAt = 0, MatchChan = 0\<rparr>]\<rparr>,
      [Chan []]) =
     Inr (example_matchmaker\<lparr>activeGames := [''g1'' \<mapsto> example_match]\<rparr>,
          [Chan [example_match], Chan [example_match]], 1)"
    using JoinQueue_pairs [of "NewMatchmaker\<lparr>waitingQueue := [\<lparr>WaitingUsername = ''alice'', JoinedAt = 0, MatchChan = 0\<rparr>]\<rparr>"
        "''bob''" "\<lparr>WaitingUsername = ''alice'', JoinedAt = 0, MatchChan = 0\<rparr>" "[]" "[Chan []]"
        example_match "''g1''" 0]
    by (simp add: NewMatchmaker_def example_matchmaker_def g)
qed

text \<open>
  Claim C7 says that a finished match is never returned to a rejoining player. Here the
  registry still holds the match that alice has won: \<open>JoinQueue\<close> for alice returns a
  channel holding that Finished match, and the registry is unchanged.
\<close>

theorem JoinQueue_returns_finished_match:
  "Status example_won = StatusFinished \<and>
   playerGames example_matchmaker ''alice'' = Some ''g1'' \<and>
   activeGames example_matchmaker ''g1'' = Some example_won \<and>
   JoinQueue ''g2'' 9 ''alice'' (example_matchmaker, example_chans) =
     Inr (example_matchmaker, example_chans @ [Chan [example_won]], length example_chans)"
proof -
  have s: "Status example_won = StatusFinished" by code_simp
  have p: "playerGames example_matchmaker ''alice'' = Some ''g1''"
    by (simp add: example_matchmaker_def)
  have a: "activeGames example_matchmaker ''g1'' = Some example_won"
    by (simp add: example_matchmaker_def)
  from s p a JoinQueue_existing [OF p a] show ?thesis by simp
qed

end
